theory Spec2Isabelle
  imports Main
begin

section \<open>The workbox-routing Router\<close>

text \<open>
  A shallow embedding of \<^verbatim>\<open>packages/workbox-routing/src/Router.ts\<close>.
  The Router is a record of its three private fields; every method takes the Router
  (\<open>this\<close>) and returns it again with its result, so that what a method leaves alone
  is a statement about the returned state.

  The callbacks the Router calls (match predicates, handlers) come from outside the file.
  They are functions of the options object they are called with, and every call the
  Router makes is written to a list of calls that the method returns next to its result.
  Time is logical: a promise carries the number of ticks after which it settles, counted
  from the call that made it.
\<close>

subsection \<open>Values that cross the Router's boundary\<close>

type_synonym js_error = string
type_synonym response = string
type_synonym extendable_event = nat

text \<open>
  The parsed URL. \<^verbatim>\<open>request.url\<close> is the serialisation of an absolute URL, so
  \<^verbatim>\<open>new URL(request.url, location.href)\<close> is the request's own URL for every
  base; the request carries it parsed.
\<close>

record url =
  protocol :: string
  href :: string

record request =
  req_url :: url
  req_method :: string

text \<open>
  What a match predicate may return (its TypeScript type is \<^verbatim>\<open>any\<close>): the
  falsy values, a boolean, a number, a string, an array, a plain object (one whose
  \<^verbatim>\<open>constructor\<close> is \<^verbatim>\<open>Object\<close>), or an object of another class.
\<close>

datatype match_result =
    MUndefined
  | MNull
  | MBool bool
  | MNumber int
  | MString string
  | MArray "string list"
  | MObject "(string \<times> string) list"
  | MInstance string

text \<open>JavaScript's ToBoolean on these values: \<^verbatim>\<open>if (matchResult)\<close>.\<close>

fun truthy :: "match_result \<Rightarrow> bool" where
  "truthy MUndefined = False"
| "truthy MNull = False"
| "truthy (MBool b) = b"
| "truthy (MNumber n) = (n \<noteq> 0)"
| "truthy (MString s) = (s \<noteq> [])"
| "truthy (MArray xs) = True"
| "truthy (MObject kvs) = True"
| "truthy (MInstance c) = True"

text \<open>\<^verbatim>\<open>Array.isArray(v) && v.length > 0\<close>\<close>

fun nonempty_array :: "match_result \<Rightarrow> bool" where
  "nonempty_array (MArray xs) = (length xs > 0)"
| "nonempty_array v = False"

text \<open>\<^verbatim>\<open>v.constructor === Object && Object.keys(v).length > 0\<close>\<close>

fun nonempty_plain_object :: "match_result \<Rightarrow> bool" where
  "nonempty_plain_object (MObject kvs) = (length (map fst kvs) > 0)"
| "nonempty_plain_object v = False"

text \<open>A promise, by how it ends: fulfilled or rejected after some ticks, or never settled.\<close>

datatype 'a promise =
    Fulfills nat 'a
  | Rejects nat js_error
  | NeverSettles

text \<open>A promise made \<open>t\<close> ticks from now, seen from now.\<close>

fun later :: "nat \<Rightarrow> 'a promise \<Rightarrow> 'a promise" where
  "later t (Fulfills d v) = Fulfills (t + d) v"
| "later t (Rejects d e) = Rejects (t + d) e"
| "later t NeverSettles = NeverSettles"

text \<open>
  How a call of \<^verbatim>\<open>handler.handle(...)\<close> completes: it throws, or it returns a
  promise of a response, or it returns \<^verbatim>\<open>undefined\<close> (\<open>None\<close>). A promise fulfilled
  with \<^verbatim>\<open>undefined\<close> is \<open>Fulfills t None\<close>.
\<close>

datatype handle_outcome =
    Throws js_error
  | Returns "response option promise option"

record match_options =
  url :: url
  request :: request
  event :: "extendable_event option"

record handler_options = match_options +
  params :: "match_result option"

record handler =
  handle :: "handler_options \<Rightarrow> handle_outcome"

text \<open>
  A Route is an object registered by reference: \<open>route_ref\<close> is its identity, the only
  thing \<^verbatim>\<open>===\<close> and \<^verbatim>\<open>indexOf\<close> compare. Its field \<^verbatim>\<open>method\<close> is \<open>route_method\<close> here.
\<close>

record route =
  route_ref :: nat
  route_method :: string
  match :: "match_options \<Rightarrow> match_result"
  handler :: handler

datatype call =
    MatchCall route match_options
  | HandleCall handler handler_options

subsection \<open>The Router and its route table\<close>

record router =
  routes :: "string \<rightharpoonup> route list"
  defaultHandler :: "handler option"
  catchHandler :: "handler option"

definition new_Router :: router where
  "new_Router = \<lparr>routes = Map.empty, defaultHandler = None, catchHandler = None\<rparr>"

text \<open>\<^verbatim>\<open>this._routes.get(method) || []\<close>: an array, also an empty one, is truthy.\<close>

definition routes_get :: "router \<Rightarrow> string \<Rightarrow> route list" where
  "routes_get this m = (case routes this m of None \<Rightarrow> [] | Some rs \<Rightarrow> rs)"

text \<open>
  \<^verbatim>\<open>registerRoute\<close>, production build: the method gets an empty array when the
  map has no key for it, then the route is pushed onto the end of the method's array.
\<close>

definition registerRoute :: "route \<Rightarrow> router \<Rightarrow> router" where
  "registerRoute route this =
     (let routes1 = (case routes this (route_method route) of
                       None \<Rightarrow> (routes this)(route_method route \<mapsto> [])
                     | Some rs \<Rightarrow> routes this)
      in this\<lparr>routes := routes1(route_method route \<mapsto>
                  (case routes1 (route_method route) of None \<Rightarrow> [] | Some rs \<Rightarrow> rs) @ [route])\<rparr>)"

subsection \<open>Route matching\<close>

text \<open>
  The block that turns a truthy match result into params: a non-empty array or a
  non-empty plain object is passed on, everything else leaves \<^verbatim>\<open>params\<close> undefined.
\<close>

definition params_of :: "match_result \<Rightarrow> match_result option" where
  "params_of matchResult =
     (if nonempty_array matchResult then Some matchResult
      else if nonempty_plain_object matchResult then Some matchResult
      else None)"

text \<open>
  The \<^verbatim>\<open>for (const route of routes)\<close> loop of \<^verbatim>\<open>findMatchingRoute\<close>. It
  returns the object \<^verbatim>\<open>{route, params}\<close> as a pair (\<^verbatim>\<open>{}\<close> is the pair of
  two absent fields) and the calls of match predicates it made, in order.
\<close>

fun match_loop ::
  "match_options \<Rightarrow> route list \<Rightarrow> (route option \<times> match_result option) \<times> call list" where
  "match_loop opts [] = ((None, None), [])"
| "match_loop opts (route # rest) =
     (let matchResult = match route opts in
      if truthy matchResult
      then ((Some route, params_of matchResult), [MatchCall route opts])
      else (let (res, calls) = match_loop opts rest
            in (res, MatchCall route opts # calls)))"

definition findMatchingRoute ::
  "match_options \<Rightarrow> router \<Rightarrow>
     ((route option \<times> match_result option) \<times> call list) \<times> router" where
  "findMatchingRoute opts this =
     (let rs = routes_get this (req_method (request opts))
      in (match_loop opts rs, this))"

text \<open>
  Modelled from the spec: \<^verbatim>\<open>normalizeHandler\<close> (utils/normalizeHandler.js), which
  the two setters call. A value that already has the Handler shape is kept; a bare callback
  is wrapped into an object whose \<^verbatim>\<open>handle\<close> is the callback.
\<close>

datatype handler_callback =
    CallbackFunction "handler_options \<Rightarrow> handle_outcome"
  | HandlerObject handler

fun normalizeHandler :: "handler_callback \<Rightarrow> handler" where
  "normalizeHandler (HandlerObject h) = h"
| "normalizeHandler (CallbackFunction f) = \<lparr>handle = f\<rparr>"

definition setDefaultHandler :: "handler_callback \<Rightarrow> router \<Rightarrow> router" where
  "setDefaultHandler h this = this\<lparr>defaultHandler := Some (normalizeHandler h)\<rparr>"

definition setCatchHandler :: "handler_callback \<Rightarrow> router \<Rightarrow> router" where
  "setCatchHandler h this = this\<lparr>catchHandler := Some (normalizeHandler h)\<rparr>"

subsection \<open>Unregistering\<close>

datatype workbox_error =
    UnregisterRouteButNotFoundWithMethod string
  | UnregisterRouteRouteNotRegistered

text \<open>
  \<^verbatim>\<open>Array.prototype.indexOf\<close> on an array of objects: the index of the first
  element that is the same object, or \<open>-1\<close>.
\<close>

fun indexOf_from :: "route list \<Rightarrow> route \<Rightarrow> int \<Rightarrow> int" where
  "indexOf_from [] x k = - 1"
| "indexOf_from (r # rs) x k =
     (if route_ref r = route_ref x then k else indexOf_from rs x (k + 1))"

definition indexOf :: "route list \<Rightarrow> route \<Rightarrow> int" where
  "indexOf rs x = indexOf_from rs x 0"

text \<open>\<^verbatim>\<open>xs.splice(i, 1)\<close> for an index \<open>i\<close> that is not negative.\<close>

definition splice1 :: "'a list \<Rightarrow> nat \<Rightarrow> 'a list" where
  "splice1 xs i = take i xs @ drop (Suc i) xs"

text \<open>
  A throw leaves the method with the Router as it is at that point, so the result is the
  error or the normal return, together with the Router.
\<close>

definition unregisterRoute :: "route \<Rightarrow> router \<Rightarrow> (workbox_error + unit) \<times> router" where
  "unregisterRoute route this =
     (case routes this (route_method route) of
        None \<Rightarrow> (Inl (UnregisterRouteButNotFoundWithMethod (route_method route)), this)
      | Some rs \<Rightarrow>
          (let routeIndex = indexOf rs route in
           if routeIndex > - 1
           then (Inr (), this\<lparr>routes := (routes this)(route_method route \<mapsto>
                                  splice1 rs (nat routeIndex))\<rparr>)
           else (Inl UnregisterRouteRouteNotRegistered, this)))"

subsection \<open>Request handling\<close>

text \<open>\<^verbatim>\<open>s.startsWith(p)\<close>\<close>

definition startsWith :: "string \<Rightarrow> string \<Rightarrow> bool" where
  "startsWith s p = (take (length p) s = p)"

text \<open>
  \<^verbatim>\<open>p.catch(onRejected)\<close>: a fulfilled promise passes through; on rejection the
  callback runs at that tick, and the new promise is rejected with what the callback
  throws, or resolved with what it returns (a promise is followed, \<^verbatim>\<open>undefined\<close>
  is a value).
\<close>

fun promise_catch ::
  "response option promise \<Rightarrow> (js_error \<Rightarrow> handle_outcome) \<Rightarrow> response option promise" where
  "promise_catch (Fulfills t v) onRejected = Fulfills t v"
| "promise_catch NeverSettles onRejected = NeverSettles"
| "promise_catch (Rejects t err) onRejected =
     (case onRejected err of
        Throws e \<Rightarrow> Rejects t e
      | Returns None \<Rightarrow> Fulfills t None
      | Returns (Some q) \<Rightarrow> later t q)"

text \<open>The calls that the \<^verbatim>\<open>onRejected\<close> callback of a promise makes, with their tick.\<close>

fun catch_calls :: "'a promise \<Rightarrow> call \<Rightarrow> (nat \<times> call) list" where
  "catch_calls (Rejects t err) c = [(t, c)]"
| "catch_calls (Fulfills t v) c = []"
| "catch_calls NeverSettles c = []"

text \<open>
  What one call of \<^verbatim>\<open>handleRequest\<close> does: the value it returns
  (\<open>None\<close> is \<^verbatim>\<open>undefined\<close>), the callbacks it calls before it returns, in order,
  and the callbacks that the returned promise calls later.
\<close>

record handle_report =
  returned :: "response option promise option"
  invoked :: "call list"
  reaction :: "(nat \<times> call) list"

text \<open>\<^verbatim>\<open>handleRequest\<close>, production build (the logging branches are off).\<close>

definition handleRequest ::
  "request \<Rightarrow> extendable_event option \<Rightarrow> router \<Rightarrow> handle_report \<times> router" where
  "handleRequest req ev this =
     (let u = req_url req in
      if \<not> startsWith (protocol u) ''http''
      then (\<lparr>returned = None, invoked = [], reaction = []\<rparr>, this)
      else
        (let (((rt, ps), probes), this1) =
               findMatchingRoute \<lparr>url = u, request = req, event = ev\<rparr> this;
             h0 = (case rt of None \<Rightarrow> None | Some r \<Rightarrow> Some (handler r));
             h1 = (case h0 of None \<Rightarrow> defaultHandler this1 | Some h \<Rightarrow> Some h)
         in case h1 of
              None \<Rightarrow> (\<lparr>returned = None, invoked = probes, reaction = []\<rparr>, this1)
            | Some h \<Rightarrow>
                (let opts = \<lparr>url = u, request = req, event = ev, params = ps\<rparr>;
                     responsePromise =
                       (case handle h opts of
                          Throws err \<Rightarrow> Some (Rejects 0 err)
                        | Returns p \<Rightarrow> p);
                     calls = probes @ [HandleCall h opts]
                 in case responsePromise of
                      None \<Rightarrow> (\<lparr>returned = None, invoked = calls, reaction = []\<rparr>, this1)
                    | Some p \<Rightarrow>
                        (case catchHandler this1 of
                           None \<Rightarrow> (\<lparr>returned = Some p, invoked = calls, reaction = []\<rparr>, this1)
                         | Some c \<Rightarrow>
                             (let copts = \<lparr>url = u, request = req, event = ev, params = None\<rparr>
                              in (\<lparr>returned = Some (promise_catch p (\<lambda>err. handle c copts)),
                                   invoked = calls,
                                   reaction = catch_calls p (HandleCall c copts)\<rparr>, this1))))))"

subsection \<open>The cache-priming message listener\<close>

type_synonym request_init = "(string \<times> string) list"

text \<open>An entry of \<^verbatim>\<open>urlsToCache\<close>: \<^verbatim>\<open>string | [string, RequestInit?]\<close>.\<close>

datatype request_args =
    UrlString string
  | UrlTuple string "request_init option"

record cache_urls_message_data =
  msg_type :: string
  urlsToCache :: "request_args list"

record extendable_message_event =
  data :: "cache_urls_message_data option"
  ports :: "nat list"

text \<open>
  \<^verbatim>\<open>Promise.all\<close>. An element that is not a promise counts as fulfilled at once.
  The result is rejected at the tick of the earliest rejection (the first in the list
  among those of one tick), never settles when nothing is rejected and an element never
  settles, and is otherwise fulfilled when the last element is.
\<close>

fun resolve_value :: "'a option promise option \<Rightarrow> 'a option promise" where
  "resolve_value None = Fulfills 0 None"
| "resolve_value (Some p) = p"

fun all_step :: "'a promise \<Rightarrow> 'a list promise \<Rightarrow> 'a list promise" where
  "all_step (Rejects t e) (Rejects t' e') = (if t \<le> t' then Rejects t e else Rejects t' e')"
| "all_step (Rejects t e) rest = Rejects t e"
| "all_step p (Rejects t' e') = Rejects t' e'"
| "all_step NeverSettles rest = NeverSettles"
| "all_step p NeverSettles = NeverSettles"
| "all_step (Fulfills t v) (Fulfills t' vs) = Fulfills (max t t') (v # vs)"

fun Promise_all :: "'a promise list \<Rightarrow> 'a list promise" where
  "Promise_all [] = Fulfills 0 []"
| "Promise_all (p # ps) = all_step p (Promise_all ps)"

text \<open>
  The start of the \<^verbatim>\<open>urlsToCache.map(...)\<close> callback: a bare string becomes a
  one-element tuple, and \<^verbatim>\<open>new Request(...entry)\<close> makes the request. The
  platform's constructor is the parameter \<open>new_Request\<close>.
\<close>

fun entry_request ::
  "(string \<Rightarrow> request_init option \<Rightarrow> request) \<Rightarrow> request_args \<Rightarrow> request" where
  "entry_request new_Request (UrlString s) = new_Request s None"
| "entry_request new_Request (UrlTuple s init) = new_Request s init"

text \<open>
  The \<^verbatim>\<open>map\<close> itself, entry by entry: each callback calls
  \<^verbatim>\<open>handleRequest\<close> with the request and no event.
\<close>

fun start_all ::
  "(string \<Rightarrow> request_init option \<Rightarrow> request) \<Rightarrow> request_args list \<Rightarrow> router \<Rightarrow>
     handle_report list \<times> router" where
  "start_all new_Request [] this = ([], this)"
| "start_all new_Request (entry # rest) this =
     (let (rep, this1) = handleRequest (entry_request new_Request entry) None this;
          (reps, this2) = start_all new_Request rest this1
      in (rep # reps, this2))"

text \<open>
  What the listener does for one message: the derived \<^verbatim>\<open>handleRequest\<close> calls in
  order, the promise given to \<^verbatim>\<open>event.waitUntil\<close>, and the
  \<^verbatim>\<open>postMessage(true)\<close> calls as (tick, port).
\<close>

record listener_report =
  derived :: "handle_report list"
  waitUntil :: "response option list promise option"
  posted :: "(nat \<times> nat) list"

text \<open>
  The listener that \<^verbatim>\<open>addCacheListener\<close> registers. \<^verbatim>\<open>await requestPromises\<close>
  throws when the promise is rejected, so \<^verbatim>\<open>postMessage\<close> runs only when it is
  fulfilled.
\<close>

definition cacheListener ::
  "(string \<Rightarrow> request_init option \<Rightarrow> request) \<Rightarrow> extendable_message_event \<Rightarrow> router \<Rightarrow>
     listener_report \<times> router" where
  "cacheListener new_Request ev this =
     (case data ev of
        None \<Rightarrow> (\<lparr>derived = [], waitUntil = None, posted = []\<rparr>, this)
      | Some d \<Rightarrow>
          if msg_type d = ''CACHE_URLS''
          then
            (let (reps, this1) = start_all new_Request (urlsToCache d) this;
                 requestPromises = Promise_all (map (\<lambda>r. resolve_value (returned r)) reps)
             in (\<lparr>derived = reps,
                  waitUntil = Some requestPromises,
                  posted = (case ports ev of
                              [] \<Rightarrow> []
                            | port # _ \<Rightarrow>
                                (case requestPromises of
                                   Fulfills t vs \<Rightarrow> [(t, port)]
                                 | Rejects t e \<Rightarrow> []
                                 | NeverSettles \<Rightarrow> []))\<rparr>, this1))
          else (\<lparr>derived = [], waitUntil = None, posted = []\<rparr>, this))"

subsection \<open>Concrete routes, handlers and requests\<close>

text \<open>
  The scenario of the Router's documentation: two GET routes for the same path, A
  registered before B, and a route of another method.
\<close>

definition ex_url :: url where
  "ex_url = \<lparr>protocol = ''https:'', href = ''https://example.com/a''\<rparr>"

definition ex_request :: request where
  "ex_request = \<lparr>req_url = ex_url, req_method = ''GET''\<rparr>"

definition ex_opts :: match_options where
  "ex_opts = \<lparr>url = ex_url, request = ex_request, event = None\<rparr>"

definition H_A :: handler where
  "H_A = \<lparr>handle = (\<lambda>opts. Returns (Some (Fulfills 2 (Some ''from A''))))\<rparr>"

definition H_B :: handler where
  "H_B = \<lparr>handle = (\<lambda>opts. Returns (Some (Fulfills 2 (Some ''from B''))))\<rparr>"

definition match_path_a :: "match_options \<Rightarrow> match_result" where
  "match_path_a opts = MBool (href (url opts) = ''https://example.com/a'')"

definition route_A :: route where
  "route_A = \<lparr>route_ref = 1, route_method = ''GET'', match = match_path_a, handler = H_A\<rparr>"

definition route_B :: route where
  "route_B = \<lparr>route_ref = 2, route_method = ''GET'', match = match_path_a, handler = H_B\<rparr>"

definition route_P :: route where
  "route_P = \<lparr>route_ref = 3, route_method = ''POST'', match = (\<lambda>opts. MBool True), handler = H_B\<rparr>"

text \<open>
  A request whose scheme is not http; a default handler; handlers that
  throw, that reject and that recover; and routes that use them. \<open>route_E\<close> matches
  with an empty array, \<open>route_N\<close> never matches.
\<close>

definition ex_ext_url :: url where
  "ex_ext_url = \<lparr>protocol = ''chrome-extension:'', href = ''chrome-extension://abcdef/popup.html''\<rparr>"

definition ex_ext_request :: request where
  "ex_ext_request = \<lparr>req_url = ex_ext_url, req_method = ''GET''\<rparr>"

definition H_D :: handler where
  "H_D = \<lparr>handle = (\<lambda>opts. Returns (Some (Fulfills 1 (Some ''from default''))))\<rparr>"

definition H_throws :: handler where
  "H_throws = \<lparr>handle = (\<lambda>opts. Throws ''boom'')\<rparr>"

definition H_rejects :: handler where
  "H_rejects = \<lparr>handle = (\<lambda>opts. Returns (Some (Rejects 3 ''network down'')))\<rparr>"

definition H_fallback :: handler where
  "H_fallback = \<lparr>handle = (\<lambda>opts. Returns (Some (Fulfills 1 (Some ''fallback''))))\<rparr>"

definition H_catch_fails :: handler where
  "H_catch_fails = \<lparr>handle = (\<lambda>opts. Returns (Some (Rejects 1 ''no fallback'')))\<rparr>"

definition route_T :: route where
  "route_T = \<lparr>route_ref = 4, route_method = ''GET'', match = match_path_a, handler = H_throws\<rparr>"

definition route_R :: route where
  "route_R = \<lparr>route_ref = 5, route_method = ''GET'', match = match_path_a, handler = H_rejects\<rparr>"

definition route_E :: route where
  "route_E = \<lparr>route_ref = 6, route_method = ''GET'', match = (\<lambda>opts. MArray []), handler = H_A\<rparr>"

definition route_N :: route where
  "route_N = \<lparr>route_ref = 7, route_method = ''GET'', match = (\<lambda>opts. MBool False), handler = H_B\<rparr>"

text \<open>
  The Router after route A was registered and unregistered again: GET has an array in
  the map, and the array is empty.
\<close>

definition emptied_router :: router where
  "emptied_router = snd (unregisterRoute route_A (registerRoute route_A new_Router))"

text \<open>
  Cache-priming messages with a reply port, and a stand-in for the platform's
  \<^verbatim>\<open>Request\<close> constructor that takes the string as the absolute URL.
\<close>

definition ex_new_Request :: "string \<Rightarrow> request_init option \<Rightarrow> request" where
  "ex_new_Request s init = \<lparr>req_url = \<lparr>protocol = ''https:'', href = s\<rparr>, req_method = ''GET''\<rparr>"

definition ex_data :: cache_urls_message_data where
  "ex_data = \<lparr>msg_type = ''CACHE_URLS'',
              urlsToCache = [UrlString ''https://example.com/a'',
                             UrlTuple ''https://example.com/a'' (Some [(''mode'', ''no-cors'')])]\<rparr>"

definition ex_message :: extendable_message_event where
  "ex_message = \<lparr>data = Some ex_data, ports = [9]\<rparr>"

definition ex_data_one :: cache_urls_message_data where
  "ex_data_one = \<lparr>msg_type = ''CACHE_URLS'', urlsToCache = [UrlString ''https://example.com/a'']\<rparr>"

definition ex_message_one :: extendable_message_event where
  "ex_message_one = \<lparr>data = Some ex_data_one, ports = [9]\<rparr>"

section \<open>Properties\<close>

subsection \<open>The route table and the matching loop\<close>

lemma routes_get_registerRoute:
  "routes_get (registerRoute r this) m =
     (if route_method r = m then routes_get this m @ [r] else routes_get this m)"
  by (simp add: routes_get_def registerRoute_def Let_def split: option.splits)

lemma routes_get_fold_registerRoute:
  "routes_get (fold registerRoute regs this) m =
     routes_get this m @ filter (\<lambda>r. route_method r = m) regs"
  by (induction regs arbitrary: this) (simp_all add: routes_get_registerRoute)

lemma routes_get_new_Router: "routes_get new_Router m = []"
  by (simp add: routes_get_def new_Router_def)

lemma match_loop_first:
  "i < length rs \<Longrightarrow> truthy (match (rs ! i) opts) \<Longrightarrow>
   (\<forall>j<i. \<not> truthy (match (rs ! j) opts)) \<Longrightarrow>
   match_loop opts rs =
     ((Some (rs ! i), params_of (match (rs ! i) opts)),
      map (\<lambda>r. MatchCall r opts) (take (Suc i) rs))"
proof (induction rs arbitrary: i)
  case Nil
  then show ?case by simp
next
  case (Cons r rs)
  show ?case
  proof (cases i)
    case 0
    with Cons.prems show ?thesis by simp
  next
    case (Suc k)
    with Cons.prems have "\<not> truthy (match r opts)" by auto
    moreover have "match_loop opts rs =
       ((Some (rs ! k), params_of (match (rs ! k) opts)),
        map (\<lambda>r. MatchCall r opts) (take (Suc k) rs))"
      using Cons.prems Suc by (intro Cons.IH) auto
    ultimately show ?thesis using Suc by simp
  qed
qed

lemma match_loop_none:
  "(\<forall>r\<in>set rs. \<not> truthy (match r opts)) \<Longrightarrow>
   match_loop opts rs = ((None, None), map (\<lambda>r. MatchCall r opts) rs)"
  by (induction rs) simp_all

lemma params_of_not_empty:
  "params_of v \<noteq> Some (MArray [])" "params_of v \<noteq> Some (MObject [])"
  by (cases v; simp add: params_of_def)+

lemma params_of_empty: "params_of (MArray []) = None" "params_of (MObject []) = None"
  by (simp_all add: params_of_def)

lemma match_loop_params:
  "snd (fst (match_loop opts rs)) \<noteq> Some (MArray []) \<and>
   snd (fst (match_loop opts rs)) \<noteq> Some (MObject [])"
  by (induction rs) (auto simp: Let_def params_of_not_empty split: prod.splits)

lemma findMatchingRoute_router: "snd (findMatchingRoute opts this) = this"
  by (simp add: findMatchingRoute_def)

lemma handleRequest_router: "snd (handleRequest req ev this) = this"
  by (simp add: handleRequest_def findMatchingRoute_def Let_def
           split: prod.splits option.splits handle_outcome.splits)

subsection \<open>Unregistering, the listener and \<^verbatim>\<open>Promise.all\<close>\<close>

lemma indexOf_from_absent:
  "route_ref x \<notin> route_ref ` set rs \<Longrightarrow> indexOf_from rs x k = - 1"
  by (induction rs arbitrary: k) auto

lemma indexOf_from_first:
  "route_ref r = route_ref x \<Longrightarrow> route_ref x \<notin> route_ref ` set pre \<Longrightarrow>
   indexOf_from (pre @ r # post) x k = k + int (length pre)"
  by (induction pre arbitrary: k) auto

lemma splice1_at: "splice1 (pre @ r # post) (length pre) = pre @ post"
  by (simp add: splice1_def)

lemma start_all_router: "snd (start_all new_Request es this) = this"
proof (induction es)
  case Nil
  then show ?case by simp
next
  case (Cons e es)
  have "snd (handleRequest (entry_request new_Request e) None this) = this"
    by (rule handleRequest_router)
  with Cons show ?case
    by (auto simp: Let_def split: prod.splits)
qed

lemma start_all_derived:
  "fst (start_all new_Request es this) =
     map (\<lambda>entry. fst (handleRequest (entry_request new_Request entry) None this)) es"
proof (induction es)
  case Nil
  then show ?case by simp
next
  case (Cons e es)
  have "snd (handleRequest (entry_request new_Request e) None this) = this"
    by (rule handleRequest_router)
  with Cons show ?case
    by (auto simp: Let_def split: prod.splits)
qed

lemma all_step_Fulfills:
  "all_step p q = Fulfills t vs \<Longrightarrow>
   \<exists>s v s' vs'. p = Fulfills s v \<and> q = Fulfills s' vs' \<and> t = max s s' \<and> vs = v # vs'"
  by (cases p; cases q) (auto split: if_splits)

lemma Promise_all_Fulfills:
  "Promise_all ps = Fulfills t vs \<Longrightarrow> \<forall>p\<in>set ps. \<exists>s v. p = Fulfills s v \<and> s \<le> t"
proof (induction ps arbitrary: t vs)
  case Nil
  then show ?case by simp
next
  case (Cons p ps)
  from Cons.prems obtain s v s' vs' where
    p: "p = Fulfills s v" and q: "Promise_all ps = Fulfills s' vs'" and t: "t = max s s'"
    using all_step_Fulfills [of p "Promise_all ps" t vs] by auto
  from Cons.IH [OF q] have "\<forall>p\<in>set ps. \<exists>s v. p = Fulfills s v \<and> s \<le> s'" .
  with p t show ?case by fastforce
qed

lemma Promise_all_all_fulfilled:
  "\<forall>p\<in>set ps. \<exists>s v. p = Fulfills s v \<Longrightarrow>
   \<exists>t vs. Promise_all ps = Fulfills t vs \<and> (t = 0 \<or> (\<exists>v. Fulfills t v \<in> set ps))"
proof (induction ps)
  case Nil
  then show ?case by simp
next
  case (Cons p ps)
  then obtain s v where p: "p = Fulfills s v" by auto
  from Cons obtain t vs where
    q: "Promise_all ps = Fulfills t vs" and t: "t = 0 \<or> (\<exists>v. Fulfills t v \<in> set ps)"
    by auto
  have "Promise_all (p # ps) = Fulfills (max s t) (v # vs)" using p q by simp
  moreover have "max s t = 0 \<or> (\<exists>v. Fulfills (max s t) v \<in> set (p # ps))"
    using p t by (cases "s \<le> t") (auto simp: max_def)
  ultimately show ?case by blast
qed

lemma resolve_value_Fulfills:
  "resolve_value x = Fulfills s v \<Longrightarrow> x = None \<or> x = Some (Fulfills s v)"
  by (cases x) auto

lemma cacheListener_report:
  assumes "data mev = Some d" and "msg_type d = ''CACHE_URLS''"
  shows "fst (cacheListener nr mev this) =
     \<lparr>derived = fst (start_all nr (urlsToCache d) this),
      waitUntil = Some (Promise_all (map (\<lambda>r. resolve_value (returned r))
                          (fst (start_all nr (urlsToCache d) this)))),
      posted = (case ports mev of
                  [] \<Rightarrow> []
                | port # _ \<Rightarrow>
                    (case Promise_all (map (\<lambda>r. resolve_value (returned r))
                            (fst (start_all nr (urlsToCache d) this))) of
                       Fulfills t vs \<Rightarrow> [(t, port)]
                     | Rejects t e \<Rightarrow> []
                     | NeverSettles \<Rightarrow> []))\<rparr>"
  using assms by (cases "start_all nr (urlsToCache d) this") (simp add: cacheListener_def Let_def cong: list.case_cong)

subsection \<open>What \<^verbatim>\<open>handleRequest\<close> does once a handler is selected\<close>

lemma handleRequest_selected:
  assumes "startsWith (protocol (req_url req)) ''http''"
    and "fst (findMatchingRoute \<lparr>url = req_url req, request = req, event = ev\<rparr> this) =
           ((rt, ps), probes)"
    and "(case rt of None \<Rightarrow> defaultHandler this | Some r \<Rightarrow> Some (handler r)) = Some h"
  shows "fst (handleRequest req ev this) =
     (case (case handle h \<lparr>url = req_url req, request = req, event = ev, params = ps\<rparr> of
              Throws err \<Rightarrow> Some (Rejects 0 err) | Returns p \<Rightarrow> p) of
        None \<Rightarrow> \<lparr>returned = None,
                 invoked = probes @ [HandleCall h
                    \<lparr>url = req_url req, request = req, event = ev, params = ps\<rparr>],
                 reaction = []\<rparr>
      | Some p \<Rightarrow>
          (case catchHandler this of
             None \<Rightarrow> \<lparr>returned = Some p,
                      invoked = probes @ [HandleCall h
                         \<lparr>url = req_url req, request = req, event = ev, params = ps\<rparr>],
                      reaction = []\<rparr>
           | Some c \<Rightarrow>
               \<lparr>returned = Some (promise_catch p (\<lambda>err. handle c
                    \<lparr>url = req_url req, request = req, event = ev, params = None\<rparr>)),
                invoked = probes @ [HandleCall h
                    \<lparr>url = req_url req, request = req, event = ev, params = ps\<rparr>],
                reaction = catch_calls p (HandleCall c
                    \<lparr>url = req_url req, request = req, event = ev, params = None\<rparr>)\<rparr>))"
proof -
  have "findMatchingRoute \<lparr>url = req_url req, request = req, event = ev\<rparr> this =
      (((rt, ps), probes), this)"
    using assms(2) findMatchingRoute_router [of "\<lparr>url = req_url req, request = req, event = ev\<rparr>" this]
    by (simp add: prod_eq_iff)
  then show ?thesis
    using assms(1,3)
    by (cases rt) (simp_all add: handleRequest_def Let_def split: option.splits handle_outcome.splits)
qed

subsection \<open>Unfolding the concrete scenarios\<close>

lemmas ex_defs =
  ex_url_def ex_request_def ex_opts_def route_A_def route_B_def route_P_def match_path_a_def
  route_T_def route_R_def route_E_def route_N_def

lemmas router_defs =
  routes_get_def registerRoute_def new_Router_def setCatchHandler_def setDefaultHandler_def
  findMatchingRoute_def startsWith_def

lemmas handle_defs =
  handleRequest_def findMatchingRoute_def routes_get_def registerRoute_def new_Router_def
  startsWith_def params_of_def Let_def

subsection \<open>Precedence of the earliest registered route\<close>

text \<open>
  C1. Routes are registered in any order and under any methods; \<open>rs\<close> are those of the
  request's method, in registration order. When the route at index \<open>i\<close> is the first
  whose match predicate returns a truthy value, \<^verbatim>\<open>findMatchingRoute\<close> returns that
  route with its params, and the match predicates it called are exactly those of the
  routes up to index \<open>i\<close>, each once and in order: no later predicate is called. For a
  request with an http scheme, \<^verbatim>\<open>handleRequest\<close> calls the same predicates and then
  the handler of that route.
\<close>

theorem earliest_registered_route_wins:
  assumes "rs = filter (\<lambda>r. route_method r = req_method req) regs"
    and "i < length rs"
    and "truthy (match (rs ! i) \<lparr>url = u, request = req, event = ev\<rparr>)"
    and "\<forall>j<i. \<not> truthy (match (rs ! j) \<lparr>url = u, request = req, event = ev\<rparr>)"
  shows "fst (findMatchingRoute \<lparr>url = u, request = req, event = ev\<rparr>
                (fold registerRoute regs new_Router)) =
           ((Some (rs ! i), params_of (match (rs ! i) \<lparr>url = u, request = req, event = ev\<rparr>)),
            map (\<lambda>r. MatchCall r \<lparr>url = u, request = req, event = ev\<rparr>) (take (Suc i) rs))
         \<and> (u = req_url req \<and> startsWith (protocol u) ''http'' \<longrightarrow>
              invoked (fst (handleRequest req ev (fold registerRoute regs new_Router))) =
                map (\<lambda>r. MatchCall r \<lparr>url = u, request = req, event = ev\<rparr>) (take (Suc i) rs) @
                [HandleCall (handler (rs ! i))
                   \<lparr>url = u, request = req, event = ev,
                    params = params_of (match (rs ! i) \<lparr>url = u, request = req, event = ev\<rparr>)\<rparr>])"
proof -
  let ?opts = "\<lparr>url = u, request = req, event = ev\<rparr>"
  let ?R = "fold registerRoute regs new_Router"
  have rs: "routes_get ?R (req_method req) = rs"
    using assms(1) by (simp add: routes_get_fold_registerRoute routes_get_new_Router)
  have loop: "match_loop ?opts rs =
      ((Some (rs ! i), params_of (match (rs ! i) ?opts)),
       map (\<lambda>r. MatchCall r ?opts) (take (Suc i) rs))"
    using assms(2-4) by (rule match_loop_first)
  have find: "findMatchingRoute ?opts ?R = (match_loop ?opts rs, ?R)"
    using rs by (simp add: findMatchingRoute_def)
  have first: "fst (findMatchingRoute ?opts ?R) =
      ((Some (rs ! i), params_of (match (rs ! i) ?opts)),
       map (\<lambda>r. MatchCall r ?opts) (take (Suc i) rs))"
    using find loop by simp
  have second: "invoked (fst (handleRequest req ev ?R)) =
      map (\<lambda>r. MatchCall r ?opts) (take (Suc i) rs) @
      [HandleCall (handler (rs ! i))
         \<lparr>url = u, request = req, event = ev, params = params_of (match (rs ! i) ?opts)\<rparr>]"
    if "u = req_url req" "startsWith (protocol u) ''http''"
    using that find loop
    by (simp add: handleRequest_def Let_def split: handle_outcome.splits option.splits)
  from first second show ?thesis by blast
qed

theorem earliest_registered_route_wins_witness:
  "truthy (match route_B ex_opts)
   \<and> fst (findMatchingRoute ex_opts
          (fold registerRoute [route_P, route_A, route_B] new_Router)) =
     ((Some route_A, None), [MatchCall route_A ex_opts])
   \<and> invoked (fst (handleRequest ex_request None
          (fold registerRoute [route_P, route_A, route_B] new_Router))) =
     [MatchCall route_A ex_opts,
      HandleCall H_A \<lparr>url = ex_url, request = ex_request, event = None, params = None\<rparr>]"
proof -
  have rs: "[route_A, route_B] =
      filter (\<lambda>r. route_method r = req_method ex_request) [route_P, route_A, route_B]"
    by (simp add: route_A_def route_B_def route_P_def ex_request_def)
  have i: "(0::nat) < length [route_A, route_B]" by simp
  have t: "truthy (match ([route_A, route_B] ! 0)
      \<lparr>url = ex_url, request = ex_request, event = None\<rparr>)"
    by (simp add: route_A_def match_path_a_def ex_url_def)
  have e: "\<forall>j<(0::nat). \<not> truthy (match ([route_A, route_B] ! j)
      \<lparr>url = ex_url, request = ex_request, event = None\<rparr>)"
    by simp
  have p: "params_of (match route_A \<lparr>url = ex_url, request = ex_request, event = None\<rparr>) = None"
    by (simp add: route_A_def match_path_a_def params_of_def)
  have h: "ex_url = req_url ex_request \<and> startsWith (protocol ex_url) ''http''"
    by (simp add: ex_request_def ex_url_def startsWith_def)
  have tb: "truthy (match route_B ex_opts)"
    by (simp add: route_B_def match_path_a_def ex_opts_def ex_url_def)
  show ?thesis
    using earliest_registered_route_wins [OF rs i t e] p h tb
    by (simp add: ex_opts_def route_A_def)
qed

subsection \<open>Requests that are not http\<close>

text \<open>
  C2. When the protocol of the request's URL does not start with \<^verbatim>\<open>http\<close>,
  \<^verbatim>\<open>handleRequest\<close> returns \<^verbatim>\<open>undefined\<close>, calls no match predicate and
  no handler, now or later, and leaves the Router as it is, whatever routes and handlers
  are registered.
\<close>

theorem non_http_request_not_handled:
  assumes "\<not> startsWith (protocol (req_url req)) ''http''"
  shows "handleRequest req ev this = (\<lparr>returned = None, invoked = [], reaction = []\<rparr>, this)"
  using assms by (simp add: handleRequest_def)

theorem non_http_request_not_handled_witness:
  "truthy (match route_E \<lparr>url = ex_ext_url, request = ex_ext_request, event = None\<rparr>)
   \<and> routes_get (setDefaultHandler (HandlerObject H_D) (registerRoute route_E new_Router)) ''GET''
       = [route_E]
   \<and> handleRequest ex_ext_request None
        (setDefaultHandler (HandlerObject H_D) (registerRoute route_E new_Router)) =
      (\<lparr>returned = None, invoked = [], reaction = []\<rparr>,
       setDefaultHandler (HandlerObject H_D) (registerRoute route_E new_Router))"
proof -
  have h: "\<not> startsWith (protocol (req_url ex_ext_request)) ''http''"
    by (simp add: ex_ext_request_def ex_ext_url_def startsWith_def)
  have t: "truthy (match route_E \<lparr>url = ex_ext_url, request = ex_ext_request, event = None\<rparr>)"
    by (simp add: route_E_def)
  have r: "routes_get (setDefaultHandler (HandlerObject H_D) (registerRoute route_E new_Router))
      ''GET'' = [route_E]"
    by (simp add: routes_get_def setDefaultHandler_def registerRoute_def new_Router_def
        route_E_def)
  show ?thesis
    using non_http_request_not_handled [OF h] t r by simp
qed

subsection \<open>Unregistering a route\<close>

text \<open>
  C3, as the code has it. \<^verbatim>\<open>unregisterRoute\<close> throws the method error when the
  map has no key for the route's method. When the key is there and no element of its array
  is the route itself, it throws the not-registered error; the array may be empty. When the
  route is in the array, the first element that is the route itself is removed, the
  elements before and after it keep their order, and the arrays of other methods stay.
\<close>

theorem unregisterRoute_removes_first_identical:
  "(routes this (route_method route) = None \<longrightarrow>
      unregisterRoute route this =
        (Inl (UnregisterRouteButNotFoundWithMethod (route_method route)), this))
   \<and> (\<forall>rs. routes this (route_method route) = Some rs \<and> route_ref route \<notin> route_ref ` set rs \<longrightarrow>
      unregisterRoute route this = (Inl UnregisterRouteRouteNotRegistered, this))
   \<and> (\<forall>pre r post.
        routes this (route_method route) = Some (pre @ r # post) \<and>
        route_ref r = route_ref route \<and> route_ref route \<notin> route_ref ` set pre \<longrightarrow>
      unregisterRoute route this =
        (Inr (), this\<lparr>routes := (routes this)(route_method route \<mapsto> pre @ post)\<rparr>))"
proof (intro conjI allI impI)
  assume "routes this (route_method route) = None"
  then show "unregisterRoute route this =
      (Inl (UnregisterRouteButNotFoundWithMethod (route_method route)), this)"
    by (simp add: unregisterRoute_def)
next
  fix rs
  assume "routes this (route_method route) = Some rs \<and> route_ref route \<notin> route_ref ` set rs"
  then show "unregisterRoute route this = (Inl UnregisterRouteRouteNotRegistered, this)"
    by (simp add: unregisterRoute_def indexOf_def indexOf_from_absent)
next
  fix pre r post
  assume a: "routes this (route_method route) = Some (pre @ r # post) \<and>
      route_ref r = route_ref route \<and> route_ref route \<notin> route_ref ` set pre"
  then have "indexOf (pre @ r # post) route = int (length pre)"
    by (simp add: indexOf_def indexOf_from_first)
  with a show "unregisterRoute route this =
      (Inr (), this\<lparr>routes := (routes this)(route_method route \<mapsto> pre @ post)\<rparr>)"
    by (simp add: unregisterRoute_def splice1_at)
qed

theorem unregisterRoute_removes_first_identical_witness:
  "unregisterRoute route_A new_Router =
     (Inl (UnregisterRouteButNotFoundWithMethod ''GET''), new_Router)
   \<and> unregisterRoute route_B (registerRoute route_A new_Router) =
     (Inl UnregisterRouteRouteNotRegistered, registerRoute route_A new_Router)
   \<and> routes_get (snd (unregisterRoute route_A
        (fold registerRoute [route_B, route_A, route_A] new_Router))) ''GET'' = [route_B, route_A]
   \<and> fst (unregisterRoute route_A
        (fold registerRoute [route_B, route_A, route_A] new_Router)) = Inr ()"
proof -
  let ?R1 = "registerRoute route_A new_Router"
  let ?R3 = "fold registerRoute [route_B, route_A, route_A] new_Router"
  have a: "routes new_Router (route_method route_A) = None"
    by (simp add: new_Router_def)
  have b: "routes ?R1 (route_method route_B) = Some [route_A] \<and>
      route_ref route_B \<notin> route_ref ` set [route_A]"
    by (simp add: registerRoute_def new_Router_def route_A_def route_B_def)
  have c: "routes ?R3 (route_method route_A) = Some ([route_B] @ route_A # [route_A]) \<and>
      route_ref route_A = route_ref route_A \<and> route_ref route_A \<notin> route_ref ` set [route_B]"
    by (simp add: registerRoute_def new_Router_def route_A_def route_B_def)
  have m: "route_method route_A = ''GET''" by (simp add: route_A_def)
  note T = unregisterRoute_removes_first_identical
  from T [of new_Router route_A] a m
  have 1: "unregisterRoute route_A new_Router =
      (Inl (UnregisterRouteButNotFoundWithMethod ''GET''), new_Router)" by simp
  from T [of ?R1 route_B] b
  have 2: "unregisterRoute route_B ?R1 = (Inl UnregisterRouteRouteNotRegistered, ?R1)" by blast
  from T [of ?R3 route_A] c
  have 3: "unregisterRoute route_A ?R3 =
      (Inr (), ?R3\<lparr>routes := (routes ?R3)(route_method route_A \<mapsto> [route_B] @ [route_A])\<rparr>)"
    by blast
  from 1 2 3 m show ?thesis by (simp add: routes_get_def)
qed

text \<open>
  C3 as stated fails on a method whose routes were all unregistered: GET has zero
  registered routes, and unregistering route A throws the not-registered error, not the
  method error.
\<close>

theorem unregisterRoute_method_error_counterexample:
  "routes_get emptied_router ''GET'' = []
   \<and> route_method route_A = ''GET''
   \<and> fst (unregisterRoute route_A emptied_router) = Inl UnregisterRouteRouteNotRegistered
   \<and> fst (unregisterRoute route_A emptied_router) \<noteq>
       Inl (UnregisterRouteButNotFoundWithMethod ''GET'')"
  by (simp add: emptied_router_def unregisterRoute_def registerRoute_def new_Router_def
      route_A_def indexOf_def splice1_def routes_get_def)

subsection \<open>A handler that throws\<close>

text \<open>
  C4. The selected handler is the handler of the matched route, or the default handler
  when no route matched. When its \<^verbatim>\<open>handle\<close> throws, \<^verbatim>\<open>handleRequest\<close>
  has called it once, after the match predicates. With a catch handler set, the returned
  promise calls the catch handler's \<^verbatim>\<open>handle\<close> exactly once, with no params,
  and ends as that call does: rejected with what the catch handler throws, fulfilled with
  \<^verbatim>\<open>undefined\<close> when it returns that, and otherwise as the promise it returns.
  With no catch handler, \<^verbatim>\<open>handleRequest\<close> returns a promise that is rejected with
  the thrown error, and nothing else is called.
\<close>

theorem synchronous_throw_becomes_rejection:
  assumes "startsWith (protocol (req_url req)) ''http''"
    and "fst (findMatchingRoute \<lparr>url = req_url req, request = req, event = ev\<rparr> this) =
           ((rt, ps), probes)"
    and "(case rt of None \<Rightarrow> defaultHandler this | Some r \<Rightarrow> Some (handler r)) = Some h"
    and "handle h \<lparr>url = req_url req, request = req, event = ev, params = ps\<rparr> = Throws err"
  shows "invoked (fst (handleRequest req ev this)) =
           probes @ [HandleCall h \<lparr>url = req_url req, request = req, event = ev, params = ps\<rparr>]
         \<and> (\<forall>c. catchHandler this = Some c \<longrightarrow>
               reaction (fst (handleRequest req ev this)) =
                 [(0, HandleCall c
                        \<lparr>url = req_url req, request = req, event = ev, params = None\<rparr>)] \<and>
               returned (fst (handleRequest req ev this)) =
                 Some (case handle c
                              \<lparr>url = req_url req, request = req, event = ev, params = None\<rparr> of
                         Throws e \<Rightarrow> Rejects 0 e
                       | Returns None \<Rightarrow> Fulfills 0 None
                       | Returns (Some q) \<Rightarrow> later 0 q))
         \<and> (catchHandler this = None \<longrightarrow>
               returned (fst (handleRequest req ev this)) = Some (Rejects 0 err) \<and>
               reaction (fst (handleRequest req ev this)) = [])"
  using handleRequest_selected [OF assms(1-3)] assms(4)
  by (simp split: option.splits)

theorem synchronous_throw_becomes_rejection_witness:
  "reaction (fst (handleRequest ex_request None
       (setCatchHandler (HandlerObject H_fallback) (registerRoute route_T new_Router)))) =
     [(0, HandleCall H_fallback
            \<lparr>url = ex_url, request = ex_request, event = None, params = None\<rparr>)]
   \<and> invoked (fst (handleRequest ex_request None
       (setCatchHandler (HandlerObject H_fallback) (registerRoute route_T new_Router)))) =
     [MatchCall route_T ex_opts,
      HandleCall H_throws \<lparr>url = ex_url, request = ex_request, event = None, params = None\<rparr>]
   \<and> returned (fst (handleRequest ex_request None
       (setCatchHandler (HandlerObject H_fallback) (registerRoute route_T new_Router)))) =
     Some (Fulfills 1 (Some ''fallback''))
   \<and> returned (fst (handleRequest ex_request None (registerRoute route_T new_Router))) =
     Some (Rejects 0 ''boom'')
   \<and> reaction (fst (handleRequest ex_request None (registerRoute route_T new_Router))) = []"
proof -
  let ?R = "registerRoute route_T new_Router"
  let ?C = "setCatchHandler (HandlerObject H_fallback) ?R"
  have http: "startsWith (protocol (req_url ex_request)) ''http''"
    by (simp add: ex_defs startsWith_def)
  have u: "req_url ex_request = ex_url" by (simp add: ex_request_def)
  have fR: "fst (findMatchingRoute \<lparr>url = req_url ex_request, request = ex_request, event = None\<rparr> ?R)
      = ((Some route_T, None), [MatchCall route_T ex_opts])"
    by (simp add: ex_defs router_defs params_of_def)
  have fC: "fst (findMatchingRoute \<lparr>url = req_url ex_request, request = ex_request, event = None\<rparr> ?C)
      = ((Some route_T, None), [MatchCall route_T ex_opts])"
    by (simp add: ex_defs router_defs params_of_def)
  have hR: "(case Some route_T of None \<Rightarrow> defaultHandler ?R | Some r \<Rightarrow> Some (handler r)) =
      Some H_throws"
    by (simp add: route_T_def)
  have hC: "(case Some route_T of None \<Rightarrow> defaultHandler ?C | Some r \<Rightarrow> Some (handler r)) =
      Some H_throws"
    by (simp add: route_T_def)
  have t: "handle H_throws \<lparr>url = req_url ex_request, request = ex_request, event = None,
      params = None\<rparr> = Throws ''boom''"
    by (simp add: H_throws_def)
  have cC: "catchHandler ?C = Some H_fallback" by (simp add: setCatchHandler_def)
  have cR: "catchHandler ?R = None" by (simp add: registerRoute_def new_Router_def)
  have fb: "handle H_fallback \<lparr>url = ex_url, request = ex_request, event = None,
      params = None\<rparr> = Returns (Some (Fulfills 1 (Some ''fallback'')))"
    by (simp add: H_fallback_def)
  from synchronous_throw_becomes_rejection [OF http fC hC t] cC u fb
  have 1: "reaction (fst (handleRequest ex_request None ?C)) =
     [(0, HandleCall H_fallback
            \<lparr>url = ex_url, request = ex_request, event = None, params = None\<rparr>)]
     \<and> invoked (fst (handleRequest ex_request None ?C)) =
     [MatchCall route_T ex_opts,
      HandleCall H_throws \<lparr>url = ex_url, request = ex_request, event = None, params = None\<rparr>]
     \<and> returned (fst (handleRequest ex_request None ?C)) =
     Some (Fulfills 1 (Some ''fallback''))"
    by simp
  from synchronous_throw_becomes_rejection [OF http fR hR t] cR
  have 2: "returned (fst (handleRequest ex_request None ?R)) = Some (Rejects 0 ''boom'')
     \<and> reaction (fst (handleRequest ex_request None ?R)) = []"
    by simp
  from 1 2 show ?thesis by simp
qed

subsection \<open>Recovery by the catch handler\<close>

text \<open>
  C5. A catch handler is set, and the selected handler fails: it throws, or its promise is
  rejected at tick \<open>t\<close>. Then the catch handler is called once at that tick with
  \<^verbatim>\<open>{url, request, event}\<close> and no params. The promise that
  \<^verbatim>\<open>handleRequest\<close> returns ends as the catch handler's result does: fulfilled
  with its response, or rejected with its error when the catch handler's promise is rejected
  or the catch handler throws.
\<close>

theorem catch_handler_result_is_final:
  assumes "startsWith (protocol (req_url req)) ''http''"
    and "fst (findMatchingRoute \<lparr>url = req_url req, request = req, event = ev\<rparr> this) =
           ((rt, ps), probes)"
    and "(case rt of None \<Rightarrow> defaultHandler this | Some r \<Rightarrow> Some (handler r)) = Some h"
    and "catchHandler this = Some c"
    and "handle h \<lparr>url = req_url req, request = req, event = ev, params = ps\<rparr> = Throws err \<and> t = 0
         \<or> handle h \<lparr>url = req_url req, request = req, event = ev, params = ps\<rparr> =
              Returns (Some (Rejects t err))"
  shows "reaction (fst (handleRequest req ev this)) =
           [(t, HandleCall c \<lparr>url = req_url req, request = req, event = ev, params = None\<rparr>)]
         \<and> (\<forall>d v. handle c \<lparr>url = req_url req, request = req, event = ev, params = None\<rparr> =
                     Returns (Some (Fulfills d v)) \<longrightarrow>
               returned (fst (handleRequest req ev this)) = Some (Fulfills (t + d) v))
         \<and> (\<forall>d e. handle c \<lparr>url = req_url req, request = req, event = ev, params = None\<rparr> =
                     Returns (Some (Rejects d e)) \<longrightarrow>
               returned (fst (handleRequest req ev this)) = Some (Rejects (t + d) e))
         \<and> (\<forall>e. handle c \<lparr>url = req_url req, request = req, event = ev, params = None\<rparr> =
                     Throws e \<longrightarrow>
               returned (fst (handleRequest req ev this)) = Some (Rejects t e))"
  using handleRequest_selected [OF assms(1-3)] assms(4,5)
  by auto

theorem catch_handler_result_is_final_witness:
  "reaction (fst (handleRequest ex_request None
       (setCatchHandler (HandlerObject H_fallback) (registerRoute route_R new_Router)))) =
     [(3, HandleCall H_fallback
            \<lparr>url = ex_url, request = ex_request, event = None, params = None\<rparr>)]
   \<and> returned (fst (handleRequest ex_request None
       (setCatchHandler (HandlerObject H_fallback) (registerRoute route_R new_Router)))) =
     Some (Fulfills 4 (Some ''fallback''))
   \<and> returned (fst (handleRequest ex_request None
       (setCatchHandler (HandlerObject H_fallback) (registerRoute route_T new_Router)))) =
     Some (Fulfills 1 (Some ''fallback''))
   \<and> returned (fst (handleRequest ex_request None
       (setCatchHandler (HandlerObject H_catch_fails) (registerRoute route_R new_Router)))) =
     Some (Rejects 4 ''no fallback'')"
proof -
  let ?o = "\<lparr>url = req_url ex_request, request = ex_request, event = None\<rparr>"
  let ?p = "\<lparr>url = req_url ex_request, request = ex_request, event = None, params = None\<rparr>"
  let ?RF = "setCatchHandler (HandlerObject H_fallback) (registerRoute route_R new_Router)"
  let ?TF = "setCatchHandler (HandlerObject H_fallback) (registerRoute route_T new_Router)"
  let ?RC = "setCatchHandler (HandlerObject H_catch_fails) (registerRoute route_R new_Router)"
  have http: "startsWith (protocol (req_url ex_request)) ''http''"
    by (simp add: ex_defs startsWith_def)
  have u: "req_url ex_request = ex_url" by (simp add: ex_request_def)
  have fRF: "fst (findMatchingRoute ?o ?RF) = ((Some route_R, None), [MatchCall route_R ex_opts])"
    by (simp add: ex_defs router_defs params_of_def)
  have fTF: "fst (findMatchingRoute ?o ?TF) = ((Some route_T, None), [MatchCall route_T ex_opts])"
    by (simp add: ex_defs router_defs params_of_def)
  have fRC: "fst (findMatchingRoute ?o ?RC) = ((Some route_R, None), [MatchCall route_R ex_opts])"
    by (simp add: ex_defs router_defs params_of_def)
  have hRF: "(case Some route_R of None \<Rightarrow> defaultHandler ?RF | Some r \<Rightarrow> Some (handler r)) =
      Some H_rejects" by (simp add: route_R_def)
  have hTF: "(case Some route_T of None \<Rightarrow> defaultHandler ?TF | Some r \<Rightarrow> Some (handler r)) =
      Some H_throws" by (simp add: route_T_def)
  have hRC: "(case Some route_R of None \<Rightarrow> defaultHandler ?RC | Some r \<Rightarrow> Some (handler r)) =
      Some H_rejects" by (simp add: route_R_def)
  have cRF: "catchHandler ?RF = Some H_fallback" by (simp add: setCatchHandler_def)
  have cTF: "catchHandler ?TF = Some H_fallback" by (simp add: setCatchHandler_def)
  have cRC: "catchHandler ?RC = Some H_catch_fails" by (simp add: setCatchHandler_def)
  have rej: "handle H_rejects ?p = Throws ''network down'' \<and> (3::nat) = 0
      \<or> handle H_rejects ?p = Returns (Some (Rejects 3 ''network down''))"
    by (simp add: H_rejects_def)
  have thr: "handle H_throws ?p = Throws ''boom'' \<and> (0::nat) = 0
      \<or> handle H_throws ?p = Returns (Some (Rejects 0 ''boom''))"
    by (simp add: H_throws_def)
  have fb: "handle H_fallback ?p = Returns (Some (Fulfills 1 (Some ''fallback'')))"
    by (simp add: H_fallback_def)
  have cf: "handle H_catch_fails ?p = Returns (Some (Rejects 1 ''no fallback''))"
    by (simp add: H_catch_fails_def)
  from catch_handler_result_is_final [OF http fRF hRF cRF rej] fb u
  have 1: "reaction (fst (handleRequest ex_request None ?RF)) =
       [(3, HandleCall H_fallback
            \<lparr>url = ex_url, request = ex_request, event = None, params = None\<rparr>)]
     \<and> returned (fst (handleRequest ex_request None ?RF)) = Some (Fulfills 4 (Some ''fallback''))"
    by simp
  from catch_handler_result_is_final [OF http fTF hTF cTF thr] fb
  have 2: "returned (fst (handleRequest ex_request None ?TF)) = Some (Fulfills 1 (Some ''fallback''))"
    by simp
  from catch_handler_result_is_final [OF http fRC hRC cRC rej] cf
  have 3: "returned (fst (handleRequest ex_request None ?RC)) = Some (Rejects 4 ''no fallback'')"
    by simp
  from 1 2 3 show ?thesis by simp
qed

subsection \<open>Empty match results\<close>

text \<open>
  C6. When the first route whose match predicate returns a truthy value returns an empty
  array or an empty plain object, \<^verbatim>\<open>findMatchingRoute\<close> returns that route with
  \<^verbatim>\<open>params\<close> undefined, and \<^verbatim>\<open>handleRequest\<close> calls the route's handler
  with \<^verbatim>\<open>params\<close> undefined. What \<^verbatim>\<open>handleRequest\<close> returns is the
  outcome of that very call: \<^verbatim>\<open>undefined\<close> when the handler returns that, and
  otherwise the handler's promise (a rejected one when it throws), passed through the catch
  handler when one is set. For every Router and every options object, the
  \<^verbatim>\<open>params\<close> that \<^verbatim>\<open>findMatchingRoute\<close> returns are never an empty array
  and never an empty object.
\<close>

theorem empty_match_result_gives_absent_params:
  assumes "rs = routes_get this (req_method req)"
    and "i < length rs"
    and "match (rs ! i) \<lparr>url = u, request = req, event = ev\<rparr> = MArray []
         \<or> match (rs ! i) \<lparr>url = u, request = req, event = ev\<rparr> = MObject []"
    and "\<forall>j<i. \<not> truthy (match (rs ! j) \<lparr>url = u, request = req, event = ev\<rparr>)"
  shows "fst (findMatchingRoute \<lparr>url = u, request = req, event = ev\<rparr> this) =
           ((Some (rs ! i), None),
            map (\<lambda>r. MatchCall r \<lparr>url = u, request = req, event = ev\<rparr>) (take (Suc i) rs))
         \<and> (u = req_url req \<and> startsWith (protocol u) ''http'' \<longrightarrow>
              invoked (fst (handleRequest req ev this)) =
                map (\<lambda>r. MatchCall r \<lparr>url = u, request = req, event = ev\<rparr>) (take (Suc i) rs) @
                [HandleCall (handler (rs ! i))
                   \<lparr>url = u, request = req, event = ev, params = None\<rparr>] \<and>
              returned (fst (handleRequest req ev this)) =
                (case (case handle (handler (rs ! i))
                              \<lparr>url = u, request = req, event = ev, params = None\<rparr> of
                         Throws err \<Rightarrow> Some (Rejects 0 err)
                       | Returns p \<Rightarrow> p) of
                   None \<Rightarrow> None
                 | Some p \<Rightarrow>
                     (case catchHandler this of
                        None \<Rightarrow> Some p
                      | Some c \<Rightarrow>
                          Some (promise_catch p (\<lambda>err. handle c
                            \<lparr>url = u, request = req, event = ev, params = None\<rparr>)))))
         \<and> snd (fst (fst (findMatchingRoute opts' that))) \<noteq> Some (MArray [])
         \<and> snd (fst (fst (findMatchingRoute opts' that))) \<noteq> Some (MObject [])"
proof -
  let ?opts = "\<lparr>url = u, request = req, event = ev\<rparr>"
  have tr: "truthy (match (rs ! i) ?opts)" using assms(3) by auto
  have pa: "params_of (match (rs ! i) ?opts) = None"
    using assms(3) by (auto simp: params_of_empty)
  have loop: "match_loop ?opts rs =
      ((Some (rs ! i), None), map (\<lambda>r. MatchCall r ?opts) (take (Suc i) rs))"
    using match_loop_first [OF assms(2) tr assms(4)] pa by simp
  have find: "findMatchingRoute ?opts this = (match_loop ?opts rs, this)"
    using assms(1) by (simp add: findMatchingRoute_def)
  have first: "fst (findMatchingRoute ?opts this) =
      ((Some (rs ! i), None), map (\<lambda>r. MatchCall r ?opts) (take (Suc i) rs))"
    using find loop by simp
  have second: "invoked (fst (handleRequest req ev this)) =
      map (\<lambda>r. MatchCall r ?opts) (take (Suc i) rs) @
      [HandleCall (handler (rs ! i)) \<lparr>url = u, request = req, event = ev, params = None\<rparr>]"
    if "u = req_url req" "startsWith (protocol u) ''http''"
    using that find loop
    by (simp add: handleRequest_def Let_def split: handle_outcome.splits option.splits)
  have answer: "returned (fst (handleRequest req ev this)) =
      (case (case handle (handler (rs ! i))
                    \<lparr>url = u, request = req, event = ev, params = None\<rparr> of
               Throws err \<Rightarrow> Some (Rejects 0 err)
             | Returns p \<Rightarrow> p) of
         None \<Rightarrow> None
       | Some p \<Rightarrow>
           (case catchHandler this of
              None \<Rightarrow> Some p
            | Some c \<Rightarrow>
                Some (promise_catch p (\<lambda>err. handle c
                  \<lparr>url = u, request = req, event = ev, params = None\<rparr>))))"
    if "u = req_url req" "startsWith (protocol u) ''http''"
    using that find loop
    by (simp add: handleRequest_def Let_def split: handle_outcome.splits option.splits)
  have third: "snd (fst (fst (findMatchingRoute opts' that))) \<noteq> Some (MArray []) \<and>
      snd (fst (fst (findMatchingRoute opts' that))) \<noteq> Some (MObject [])"
    using match_loop_params [of opts' "routes_get that (req_method (request opts'))"]
    by (simp add: findMatchingRoute_def)
  from first second answer third show ?thesis by blast
qed

theorem empty_match_result_gives_absent_params_witness:
  "match route_E ex_opts = MArray []
   \<and> fst (findMatchingRoute ex_opts (fold registerRoute [route_N, route_E, route_A] new_Router)) =
       ((Some route_E, None), [MatchCall route_N ex_opts, MatchCall route_E ex_opts])
   \<and> invoked (fst (handleRequest ex_request None
        (fold registerRoute [route_N, route_E, route_A] new_Router))) =
       [MatchCall route_N ex_opts, MatchCall route_E ex_opts,
        HandleCall H_A \<lparr>url = ex_url, request = ex_request, event = None, params = None\<rparr>]
   \<and> returned (fst (handleRequest ex_request None
        (fold registerRoute [route_N, route_E, route_A] new_Router))) =
       Some (Fulfills 2 (Some ''from A''))"
proof -
  let ?R = "fold registerRoute [route_N, route_E, route_A] new_Router"
  let ?o = "\<lparr>url = ex_url, request = ex_request, event = None\<rparr>"
  have rs: "[route_N, route_E, route_A] = routes_get ?R (req_method ex_request)"
    by (simp add: ex_defs router_defs)
  have i: "(1::nat) < length [route_N, route_E, route_A]" by simp
  have m: "match ([route_N, route_E, route_A] ! 1) ?o = MArray []
      \<or> match ([route_N, route_E, route_A] ! 1) ?o = MObject []"
    by (simp add: route_E_def)
  have e: "\<forall>j<(1::nat). \<not> truthy (match ([route_N, route_E, route_A] ! j) ?o)"
    by (simp add: route_N_def)
  have h: "ex_url = req_url ex_request \<and> startsWith (protocol ex_url) ''http''"
    by (simp add: ex_request_def ex_url_def startsWith_def)
  have t: "take (Suc 1) [route_N, route_E, route_A] = [route_N, route_E]" by simp
  have hE: "handler route_E = H_A" by (simp add: route_E_def)
  have mE: "match route_E ex_opts = MArray []" by (simp add: route_E_def)
  have c: "catchHandler ?R = None" by (simp add: registerRoute_def new_Router_def)
  have a: "handle H_A \<lparr>url = ex_url, request = ex_request, event = None, params = None\<rparr> =
      Returns (Some (Fulfills 2 (Some ''from A'')))"
    by (simp add: H_A_def)
  show ?thesis
    using empty_match_result_gives_absent_params [OF rs i m e] h t hE mE c a
    by (simp add: ex_opts_def)
qed

subsection \<open>Requests that match no route\<close>

text \<open>
  C7. The request has an http scheme and no route of its method matches. With a default
  handler set, \<^verbatim>\<open>handleRequest\<close> calls every match predicate of the method and
  then the default handler, with \<^verbatim>\<open>params\<close> undefined, and it returns the outcome
  of that call: \<^verbatim>\<open>undefined\<close> when the default handler returns that, and otherwise
  the default handler's promise (a rejected one when it throws), passed through the catch
  handler when one is set. With no default handler it returns \<^verbatim>\<open>undefined\<close> as a
  value and calls no handler.
\<close>

theorem unmatched_request_uses_default_handler:
  assumes "startsWith (protocol (req_url req)) ''http''"
    and "rs = routes_get this (req_method req)"
    and "\<forall>r\<in>set rs. \<not> truthy (match r \<lparr>url = req_url req, request = req, event = ev\<rparr>)"
  shows "(\<forall>d. defaultHandler this = Some d \<longrightarrow>
            invoked (fst (handleRequest req ev this)) =
              map (\<lambda>r. MatchCall r \<lparr>url = req_url req, request = req, event = ev\<rparr>) rs @
              [HandleCall d \<lparr>url = req_url req, request = req, event = ev, params = None\<rparr>] \<and>
            returned (fst (handleRequest req ev this)) =
              (case (case handle d
                            \<lparr>url = req_url req, request = req, event = ev, params = None\<rparr> of
                       Throws err \<Rightarrow> Some (Rejects 0 err)
                     | Returns p \<Rightarrow> p) of
                 None \<Rightarrow> None
               | Some p \<Rightarrow>
                   (case catchHandler this of
                      None \<Rightarrow> Some p
                    | Some c \<Rightarrow>
                        Some (promise_catch p (\<lambda>err. handle c
                          \<lparr>url = req_url req, request = req, event = ev, params = None\<rparr>)))))
         \<and> (defaultHandler this = None \<longrightarrow>
            fst (handleRequest req ev this) =
              \<lparr>returned = None,
               invoked = map (\<lambda>r. MatchCall r \<lparr>url = req_url req, request = req, event = ev\<rparr>) rs,
               reaction = []\<rparr>)"
proof -
  let ?opts = "\<lparr>url = req_url req, request = req, event = ev\<rparr>"
  have find: "findMatchingRoute ?opts this =
      (((None, None), map (\<lambda>r. MatchCall r ?opts) rs), this)"
    using assms(2) match_loop_none [OF assms(3)] by (simp add: findMatchingRoute_def)
  show ?thesis
    using assms(1) find
    by (simp add: handleRequest_def Let_def split: handle_outcome.splits option.splits)
qed

theorem unmatched_request_uses_default_handler_witness:
  "invoked (fst (handleRequest ex_request None
      (setDefaultHandler (HandlerObject H_D) new_Router))) =
     [HandleCall H_D \<lparr>url = ex_url, request = ex_request, event = None, params = None\<rparr>]
   \<and> returned (fst (handleRequest ex_request None
      (setDefaultHandler (HandlerObject H_D) new_Router))) =
     Some (Fulfills 1 (Some ''from default''))
   \<and> fst (handleRequest ex_request None (registerRoute route_N new_Router)) =
     \<lparr>returned = None, invoked = [MatchCall route_N ex_opts], reaction = []\<rparr>"
proof -
  let ?D = "setDefaultHandler (HandlerObject H_D) new_Router"
  let ?N = "registerRoute route_N new_Router"
  let ?o = "\<lparr>url = req_url ex_request, request = ex_request, event = None\<rparr>"
  have http: "startsWith (protocol (req_url ex_request)) ''http''"
    by (simp add: ex_defs startsWith_def)
  have u: "req_url ex_request = ex_url" by (simp add: ex_request_def)
  have rD: "[] = routes_get ?D (req_method ex_request)" by (simp add: router_defs)
  have rN: "[route_N] = routes_get ?N (req_method ex_request)"
    by (simp add: router_defs ex_defs)
  have nD: "\<forall>r\<in>set []. \<not> truthy (match r ?o)" by simp
  have nN: "\<forall>r\<in>set [route_N]. \<not> truthy (match r ?o)" by (simp add: route_N_def)
  have dD: "defaultHandler ?D = Some H_D" by (simp add: setDefaultHandler_def)
  have dN: "defaultHandler ?N = None" by (simp add: registerRoute_def new_Router_def)
  have cD: "catchHandler ?D = None" by (simp add: setDefaultHandler_def new_Router_def)
  have hD: "handle H_D \<lparr>url = ex_url, request = ex_request, event = None, params = None\<rparr> =
      Returns (Some (Fulfills 1 (Some ''from default'')))"
    by (simp add: H_D_def)
  from unmatched_request_uses_default_handler [OF http rD nD] dD u cD hD
  have 1: "invoked (fst (handleRequest ex_request None ?D)) =
     [HandleCall H_D \<lparr>url = ex_url, request = ex_request, event = None, params = None\<rparr>]
     \<and> returned (fst (handleRequest ex_request None ?D)) =
     Some (Fulfills 1 (Some ''from default''))"
    by simp
  from unmatched_request_uses_default_handler [OF http rN nN] dN u
  have 2: "fst (handleRequest ex_request None ?N) =
     \<lparr>returned = None, invoked = [MatchCall route_N ex_opts], reaction = []\<rparr>"
    by (simp add: ex_opts_def)
  from 1 2 show ?thesis by simp
qed

subsection \<open>The cache-priming listener\<close>

text \<open>
  C8, as the code has it. For a \<^verbatim>\<open>CACHE_URLS\<close> message the listener calls
  \<^verbatim>\<open>handleRequest\<close> once for each entry of \<^verbatim>\<open>urlsToCache\<close>, in order,
  with the request made from the entry. An acknowledgement is posted only on the first
  port, and only at a tick by which every derived call has returned
  \<^verbatim>\<open>undefined\<close> or a promise that is fulfilled. When there is a port and every
  derived call ends so, exactly one acknowledgement is posted, at tick 0 or at the tick at
  which one of the promises is fulfilled. When a derived promise is rejected or never
  settles, nothing is posted.
\<close>

theorem cache_listener_acknowledges_after_all_fulfilled:
  assumes "data mev = Some d" and "msg_type d = ''CACHE_URLS''"
  shows "derived (fst (cacheListener nr mev this)) =
           map (\<lambda>entry. fst (handleRequest (entry_request nr entry) None this)) (urlsToCache d)
         \<and> (\<forall>t p. (t, p) \<in> set (posted (fst (cacheListener nr mev this))) \<longrightarrow>
               (\<exists>more. ports mev = p # more) \<and>
               (\<forall>r\<in>set (derived (fst (cacheListener nr mev this))).
                  returned r = None \<or> (\<exists>s v. returned r = Some (Fulfills s v) \<and> s \<le> t)))
         \<and> (\<forall>p more. ports mev = p # more \<and>
               (\<forall>r\<in>set (derived (fst (cacheListener nr mev this))).
                  returned r = None \<or> (\<exists>s v. returned r = Some (Fulfills s v))) \<longrightarrow>
               (\<exists>t. posted (fst (cacheListener nr mev this)) = [(t, p)] \<and>
                    (t = 0 \<or> (\<exists>r\<in>set (derived (fst (cacheListener nr mev this))).
                                 \<exists>v. returned r = Some (Fulfills t v)))))
         \<and> ((\<exists>r\<in>set (derived (fst (cacheListener nr mev this))).
                 (\<exists>s e. returned r = Some (Rejects s e)) \<or> returned r = Some NeverSettles) \<longrightarrow>
               posted (fst (cacheListener nr mev this)) = [])"
proof -
  let ?rep = "fst (cacheListener nr mev this)"
  let ?reps = "fst (start_all nr (urlsToCache d) this)"
  let ?ps = "map (\<lambda>r. resolve_value (returned r)) ?reps"
  note rep = cacheListener_report [OF assms, of nr this]
  have der: "derived ?rep = ?reps" using rep by simp
  have post: "posted ?rep = (case ports mev of [] \<Rightarrow> [] | port # _ \<Rightarrow>
      (case Promise_all ?ps of Fulfills t vs \<Rightarrow> [(t, port)] | Rejects t e \<Rightarrow> []
        | NeverSettles \<Rightarrow> []))"
    using rep by simp
  have A: "derived ?rep =
      map (\<lambda>entry. fst (handleRequest (entry_request nr entry) None this)) (urlsToCache d)"
    using der by (simp add: start_all_derived)
  have B: "(\<exists>more. ports mev = p # more) \<and>
      (\<forall>r\<in>set (derived ?rep).
         returned r = None \<or> (\<exists>s v. returned r = Some (Fulfills s v) \<and> s \<le> t))"
    if "(t, p) \<in> set (posted ?rep)" for t p
  proof -
    from that post obtain more vs where
      pm: "ports mev = p # more" and all: "Promise_all ?ps = Fulfills t vs"
      by (auto split: list.splits promise.splits)
    have "returned r = None \<or> (\<exists>s v. returned r = Some (Fulfills s v) \<and> s \<le> t)"
      if "r \<in> set ?reps" for r
    proof -
      from that have "resolve_value (returned r) \<in> set ?ps" by simp
      with Promise_all_Fulfills [OF all] obtain s v where
        "resolve_value (returned r) = Fulfills s v" "s \<le> t" by blast
      then show ?thesis using resolve_value_Fulfills [of "returned r" s v] by auto
    qed
    with pm der show ?thesis by simp
  qed
  have C: "\<exists>t. posted ?rep = [(t, p)] \<and>
      (t = 0 \<or> (\<exists>r\<in>set (derived ?rep). \<exists>v. returned r = Some (Fulfills t v)))"
    if pm: "ports mev = p # more"
      and ok: "\<forall>r\<in>set (derived ?rep).
         returned r = None \<or> (\<exists>s v. returned r = Some (Fulfills s v))"
    for p more
  proof -
    have "\<forall>q\<in>set ?ps. \<exists>s v. q = Fulfills s v"
      using ok der by auto
    from Promise_all_all_fulfilled [OF this] obtain t vs where
      all: "Promise_all ?ps = Fulfills t vs" and t: "t = 0 \<or> (\<exists>v. Fulfills t v \<in> set ?ps)"
      by blast
    have "t = 0 \<or> (\<exists>r\<in>set ?reps. \<exists>v. returned r = Some (Fulfills t v))"
    proof (cases "t = 0")
      case True
      then show ?thesis by simp
    next
      case False
      with t obtain v where "Fulfills t v \<in> set ?ps" by blast
      then obtain r where "r \<in> set ?reps" "resolve_value (returned r) = Fulfills t v"
        by (auto simp: image_iff)
      with False resolve_value_Fulfills [of "returned r" t v] show ?thesis
        by (cases "returned r") auto
    qed
    with pm all post der show ?thesis by simp
  qed
  have D: "posted ?rep = []"
    if "\<exists>r\<in>set (derived ?rep).
          (\<exists>s e. returned r = Some (Rejects s e)) \<or> returned r = Some NeverSettles"
  proof -
    from that der obtain r where r: "r \<in> set ?reps"
      and bad: "(\<exists>s e. returned r = Some (Rejects s e)) \<or> returned r = Some NeverSettles"
      by auto
    have "\<And>t vs. Promise_all ?ps \<noteq> Fulfills t vs"
    proof
      fix t vs
      assume all: "Promise_all ?ps = Fulfills t vs"
      from r have "resolve_value (returned r) \<in> set ?ps" by simp
      with Promise_all_Fulfills [OF all] obtain s v where
        "resolve_value (returned r) = Fulfills s v" by blast
      with bad show False by auto
    qed
    then show ?thesis using post by (auto split: list.splits promise.splits)
  qed
  from A B C D show ?thesis by blast
qed

theorem cache_listener_acknowledges_after_all_fulfilled_witness:
  "map returned (derived (fst (cacheListener ex_new_Request ex_message
       (registerRoute route_A new_Router)))) =
     [Some (Fulfills 2 (Some ''from A'')), Some (Fulfills 2 (Some ''from A''))]
   \<and> posted (fst (cacheListener ex_new_Request ex_message
       (registerRoute route_A new_Router))) = [(2, 9)]"
proof -
  let ?R = "registerRoute route_A new_Router"
  let ?rep = "fst (cacheListener ex_new_Request ex_message ?R)"
  have d: "data ex_message = Some ex_data" by (simp add: ex_message_def)
  have m: "msg_type ex_data = ''CACHE_URLS''" by (simp add: ex_data_def)
  have p: "ports ex_message = [9]" by (simp add: ex_message_def)
  have u: "urlsToCache ex_data =
      [UrlString ''https://example.com/a'',
       UrlTuple ''https://example.com/a'' (Some [(''mode'', ''no-cors'')])]"
    by (simp add: ex_data_def)
  have h: "returned (fst (handleRequest (ex_new_Request ''https://example.com/a'' init) None ?R))
      = Some (Fulfills 2 (Some ''from A''))" for init
    by (simp add: handle_defs ex_new_Request_def route_A_def match_path_a_def H_A_def)
  note T = cache_listener_acknowledges_after_all_fulfilled [OF d m, of ex_new_Request ?R]
  from T have A: "derived ?rep =
      map (\<lambda>entry. fst (handleRequest (entry_request ex_new_Request entry) None ?R))
        (urlsToCache ex_data)"
    by (rule conjunct1)
  have 1: "map returned (derived ?rep) =
     [Some (Fulfills 2 (Some ''from A'')), Some (Fulfills 2 (Some ''from A''))]"
    unfolding A u by (simp add: h)
  have "map (\<lambda>r. resolve_value (returned r)) (derived ?rep) =
      map resolve_value (map returned (derived ?rep))"
    by simp
  then have all: "Promise_all (map (\<lambda>r. resolve_value (returned r)) (derived ?rep)) =
      Fulfills 2 [Some ''from A'', Some ''from A'']"
    unfolding 1 by simp
  have 2: "posted ?rep = [(2, 9)]"
    using all p by (simp add: cacheListener_report [OF d m])
  from 1 2 show ?thesis by simp
qed

text \<open>
  C8 as stated fails when a derived operation fails: the message has a reply port, its one
  derived operation settles (it is rejected at tick 3), and no acknowledgement is posted.
\<close>

theorem cache_listener_failure_counterexample:
  "ports ex_message_one = [9]
   \<and> map returned (derived (fst (cacheListener ex_new_Request ex_message_one
        (registerRoute route_R new_Router)))) = [Some (Rejects 3 ''network down'')]
   \<and> posted (fst (cacheListener ex_new_Request ex_message_one
        (registerRoute route_R new_Router))) = []"
proof -
  let ?R = "registerRoute route_R new_Router"
  have d: "data ex_message_one = Some ex_data_one" by (simp add: ex_message_one_def)
  have m: "msg_type ex_data_one = ''CACHE_URLS''" by (simp add: ex_data_one_def)
  have p: "ports ex_message_one = [9]" by (simp add: ex_message_one_def)
  have h: "fst (handleRequest (ex_new_Request ''https://example.com/a'' None) None ?R) =
      \<lparr>returned = Some (Rejects 3 ''network down''),
       invoked = [MatchCall route_R
                    \<lparr>url = \<lparr>protocol = ''https:'', href = ''https://example.com/a''\<rparr>,
                     request = ex_new_Request ''https://example.com/a'' None, event = None\<rparr>,
                  HandleCall H_rejects
                    \<lparr>url = \<lparr>protocol = ''https:'', href = ''https://example.com/a''\<rparr>,
                     request = ex_new_Request ''https://example.com/a'' None, event = None,
                     params = None\<rparr>],
       reaction = []\<rparr>"
    by (simp add: handle_defs ex_new_Request_def route_R_def match_path_a_def H_rejects_def)
  have s: "fst (start_all ex_new_Request (urlsToCache ex_data_one) ?R) =
      [fst (handleRequest (ex_new_Request ''https://example.com/a'' None) None ?R)]"
    unfolding start_all_derived by (simp add: ex_data_one_def)
  show ?thesis
    using p by (simp add: cacheListener_report [OF d m] s h)
qed

subsection \<open>The Router during matching\<close>

text \<open>
  C9. \<^verbatim>\<open>findMatchingRoute\<close>, \<^verbatim>\<open>handleRequest\<close> and the cache-priming
  listener return the Router they were given: the arrays of every method, the default
  handler and the catch handler are the same after the call as before it.
\<close>

theorem matching_leaves_router_unchanged:
  "snd (findMatchingRoute opts this) = this
   \<and> snd (handleRequest req ev this) = this
   \<and> snd (cacheListener new_Request mev this) = this"
proof -
  have "R = this" if "start_all new_Request es this = (reps, R)" for es reps R
    using start_all_router [of new_Request es this] that by simp
  then have "snd (cacheListener new_Request mev this) = this"
    by (auto simp: cacheListener_def Let_def split: option.splits prod.splits)
  then show ?thesis
    by (simp add: findMatchingRoute_router handleRequest_router)
qed

subsection \<open>Failure of unregistering\<close>

text \<open>
  C10. Whenever \<^verbatim>\<open>unregisterRoute\<close> throws, whichever of its two errors, the
  Router after the call is the Router before it.
\<close>

theorem unregisterRoute_atomic_on_failure:
  assumes "fst (unregisterRoute route this) = Inl e"
  shows "snd (unregisterRoute route this) = this"
  using assms
  by (auto simp: unregisterRoute_def Let_def split: option.splits if_splits)

theorem unregisterRoute_atomic_on_failure_witness:
  "fst (unregisterRoute route_A new_Router) = Inl (UnregisterRouteButNotFoundWithMethod ''GET'')
   \<and> snd (unregisterRoute route_A new_Router) = new_Router
   \<and> fst (unregisterRoute route_B (registerRoute route_A new_Router))
        = Inl UnregisterRouteRouteNotRegistered
   \<and> snd (unregisterRoute route_B (registerRoute route_A new_Router))
        = registerRoute route_A new_Router"
proof -
  have a: "fst (unregisterRoute route_A new_Router) =
      Inl (UnregisterRouteButNotFoundWithMethod ''GET'')"
    by (simp add: unregisterRoute_def new_Router_def route_A_def)
  have b: "fst (unregisterRoute route_B (registerRoute route_A new_Router)) =
      Inl UnregisterRouteRouteNotRegistered"
    by (simp add: unregisterRoute_def registerRoute_def new_Router_def route_A_def route_B_def
        indexOf_def)
  show ?thesis
    using a b unregisterRoute_atomic_on_failure [OF a] unregisterRoute_atomic_on_failure [OF b]
    by simp
qed

end
